theory Spec2Isabelle
  imports Main
begin

section \<open>Text\<close>

text \<open>
  Python strings are sequences of code points. Every code point the views write is below
  256 (ASCII and accented Latin-1 letters), so a \<^typ>\<open>char\<close> holds one code point.
\<close>

definition e_acute :: char where "e_acute = CHR 0xE9"
definition e_grave :: char where "e_grave = CHR 0xE8"
definition a_grave :: char where "a_grave = CHR 0xE0"
definition apostrophe :: char where "apostrophe = CHR 0x27"

text \<open>\<^verbatim>\<open>f"{n}"\<close> for a non-negative integer.\<close>

definition digit_char :: "nat \<Rightarrow> char" where
  "digit_char d = ''0123456789'' ! (d mod 10)"

function str_nat :: "nat \<Rightarrow> string" where
  "str_nat n = (if n < 10 then [digit_char n] else str_nat (n div 10) @ [digit_char (n mod 10)])"
  by pat_completeness auto
termination
  by (relation "measure id") auto

declare str_nat.simps [simp del]

text \<open>
  Modelled from the spec: the model classes (apps/core/models.py, apps/accounts/models.py)
  are not part of the sources. The spec fixes monetary values to two decimal places, so an
  amount is an integer number of hundredths, and \<^verbatim>\<open>f'{x:.2f}'\<close> prints the sign, the
  integer part, a point and the two digits of the hundredths.
\<close>

type_synonym money = int



text \<open>
  \<^verbatim>\<open>field__icontains=term\<close>: the term occurs in the field as a substring, the case of
  the letters A to Z ignored.
\<close>

definition lower_char :: "char \<Rightarrow> char" where
  "lower_char c =
     (case map_of (zip ''ABCDEFGHIJKLMNOPQRSTUVWXYZ'' ''abcdefghijklmnopqrstuvwxyz'') c of
        Some l \<Rightarrow> l | None \<Rightarrow> c)"

fun startswith :: "string \<Rightarrow> string \<Rightarrow> bool" where
  "startswith _ [] = True"
| "startswith [] (p # ps) = False"
| "startswith (c # cs) (p # ps) = (c = p \<and> startswith cs ps)"

fun contains :: "string \<Rightarrow> string \<Rightarrow> bool" where
  "contains [] t = (t = [])"
| "contains (c # cs) t = (startswith (c # cs) t \<or> contains cs t)"

definition icontains :: "string \<Rightarrow> string \<Rightarrow> bool" where
  "icontains field term = contains (map lower_char field) (map lower_char term)"

section \<open>Data model\<close>

text \<open>The tables the views read and write, with the fields the views use.\<close>

type_synonym pk = int

record datetime =
  year :: nat
  month :: nat
  day :: nat
  hour :: nat
  minute :: nat
  second :: nat

text \<open>Chronological position of the date part and of the whole value.\<close>

definition date_ord :: "datetime \<Rightarrow> nat" where
  "date_ord d = (year d * 12 + (month d - 1)) * 31 + (day d - 1)"

definition datetime_ord :: "datetime \<Rightarrow> nat" where
  "datetime_ord d = ((date_ord d * 24 + hour d) * 60 + minute d) * 60 + second d"

datatype role = Admin | Cashier

record user =
  user_pk :: pk
  first_name :: string
  last_name :: string
  email :: string
  role :: role
  is_active :: bool
  date_joined :: nat

record product =
  product_pk :: pk
  product_name :: string

record sale =
  sale_pk :: pk
  invoice_number :: string
  date :: datetime
  cashier :: pk
  status :: string
  total_amount :: money
  discount :: "money option"

record sale_item =
  item_pk :: pk
  item_sale :: pk
  item_product :: pk
  quantity :: int
  unit_price :: money

record activity =
  log_user :: pk
  verb :: string
  log_level :: string
  icon :: string

datatype level = Success | Info | Error

record message =
  msg_level :: level
  msg_text :: string

record state =
  users :: "user list"
  products :: "product list"
  sales :: "sale list"
  sale_items :: "sale_item list"
  activity_log :: "activity list"
  messages :: "message list"

text \<open>Modelled from the spec: \<^verbatim>\<open>SaleItem.line_total\<close>, quantity times unit price.\<close>

definition line_total :: "sale_item \<Rightarrow> money" where
  "line_total i = quantity i * unit_price i"

text \<open>Modelled from the spec: \<^verbatim>\<open>User.is_admin()\<close>; a user has the role admin or cashier.\<close>

definition is_admin :: "user \<Rightarrow> bool" where
  "is_admin u = (role u = Admin)"

text \<open>
  Modelled from the spec: \<^verbatim>\<open>User.get_full_name()\<close>, the display name: first and last name
  separated by a space, surrounding blanks removed.
\<close>

definition strip :: "string \<Rightarrow> string" where
  "strip s = rev (dropWhile (\<lambda>c. c = CHR '' '') (rev (dropWhile (\<lambda>c. c = CHR '' '') s)))"

definition get_full_name :: "user \<Rightarrow> string" where
  "get_full_name u = strip (first_name u @ '' '' @ last_name u)"

text \<open>The related managers \<^verbatim>\<open>sale.items.all()\<close> and \<^verbatim>\<open>product.items.all()\<close>.\<close>

definition sale_items_all :: "state \<Rightarrow> pk \<Rightarrow> sale_item list" where
  "sale_items_all st k = filter (\<lambda>i. item_sale i = k) (sale_items st)"

definition product_items_all :: "state \<Rightarrow> pk \<Rightarrow> sale_item list" where
  "product_items_all st k = filter (\<lambda>i. item_product i = k) (sale_items st)"

text \<open>The primary key the database gives a new row.\<close>

definition next_pk :: "pk list \<Rightarrow> pk" where
  "next_pk ks = fold max ks 0 + 1"

section \<open>Requests and responses\<close>

datatype principal = AnonymousUser | Authenticated user

definition is_authenticated :: "principal \<Rightarrow> bool" where
  "is_authenticated p = (case p of AnonymousUser \<Rightarrow> False | Authenticated _ \<Rightarrow> True)"

text \<open>
  A form built from the request. The validation rules are in apps/accounts/forms.py, which
  is not part of the sources, so a bound form is given by the outcome of its validation:
  its field errors (Invalid) or its cleaned data (Valid). Blank and Initial are the
  unbound forms of a GET.
\<close>

datatype 'a form = Blank | Initial 'a | Invalid "(string \<times> string) list" | Valid 'a

definition form_is_valid :: "'a form \<Rightarrow> bool" where
  "form_is_valid f = (case f of Valid _ \<Rightarrow> True | _ \<Rightarrow> False)"

definition form_errors :: "'a form \<Rightarrow> (string \<times> string) list" where
  "form_errors f = (case f of Invalid errs \<Rightarrow> errs | _ \<Rightarrow> [])"

record sale_header =
  h_invoice_number :: string
  h_date :: datetime
  h_cashier :: pk
  h_status :: string

text \<open>
  One form of the inline formset of line items: a new line (product, quantity, price), a
  change to the line with a key, a line marked for deletion, or a form left as it was.
  The formset has its forms and its own (non-form) errors.
\<close>

datatype item_form = AddItem pk int money | ChangeItem pk pk int money | DeleteItem pk | Unchanged

datatype formset = Formset "item_form form list" "string list"

definition formset_is_valid :: "formset \<Rightarrow> bool" where
  "formset_is_valid fs = (case fs of Formset fl errs \<Rightarrow> list_all form_is_valid fl \<and> errs = [])"

fun cleaned_forms :: "item_form form list \<Rightarrow> item_form list" where
  "cleaned_forms [] = []"
| "cleaned_forms (Valid c # fl) = c # cleaned_forms fl"
| "cleaned_forms (_ # fl) = cleaned_forms fl"

datatype sale_request = GET | POST "sale_header form" formset

record user_data =
  d_first_name :: string
  d_last_name :: string
  d_email :: string
  d_role :: role
  d_is_active :: bool

record json_item =
  j_product :: string
  j_quantity :: int
  j_unit_price :: string
  j_line_total :: string

record json_sale =
  j_invoice_number :: string
  j_date :: string
  j_cashier :: string
  j_subtotal :: string
  j_discount :: string
  j_total_amount :: string
  j_items :: "json_item list"

text \<open>
  What a view answers: a redirect to a named route, the framework's redirect to the login
  URL, a rendered page (status 200), a JSON body, or an error answer (404, 403, or 500
  for an exception that leaves the view).
\<close>

datatype response =
    Redirect string
  | RedirectToLogin
  | RenderSaleForm "sale_header form" formset
  | RenderForm string "(string \<times> string) list"
  | RenderEmployeeDetail user
  | RenderSaleList "sale list" money
  | JsonResponse json_sale
  | Http404
  | PermissionDenied
  | ServerError

section \<open>Notifications and the activity log\<close>

definition add_message :: "level \<Rightarrow> string \<Rightarrow> state \<Rightarrow> state" where
  "add_message l t st = st\<lparr>messages := messages st @ [\<lparr>msg_level = l, msg_text = t\<rparr>]\<rparr>"

text \<open>
  \<^verbatim>\<open>ActivityLog.objects.create(user=request.user, ...)\<close>: the user of an entry is a stored
  User, so the call raises for the anonymous principal (None).
\<close>

definition ActivityLog_create :: "principal \<Rightarrow> string \<Rightarrow> string \<Rightarrow> string \<Rightarrow> state \<Rightarrow> state option" where
  "ActivityLog_create p v l i st =
     (case p of
        AnonymousUser \<Rightarrow> None
      | Authenticated u \<Rightarrow>
          Some (st\<lparr>activity_log := activity_log st
                  @ [\<lparr>log_user = user_pk u, verb = v, log_level = l, icon = i\<rparr>]\<rparr>))"

text \<open>
  The tail the writing views share: \<^verbatim>\<open>messages.success\<close>, the log entry, the redirect.
  When the log entry raises, the rows and the notice written before stay.
\<close>

definition notify_and_log ::
  "principal \<Rightarrow> string \<Rightarrow> string \<Rightarrow> string \<Rightarrow> string \<Rightarrow> string \<Rightarrow> state \<Rightarrow> response \<times> state" where
  "notify_and_log p notice v l i url st =
     (let st1 = add_message Success notice st
      in case ActivityLog_create p v l i st1 of
           None \<Rightarrow> (ServerError, st1)
         | Some st2 \<Rightarrow> (Redirect url, st2))"

text \<open>Words of the notices.\<close>

definition Employe :: string where "Employe = ''Employ'' @ [e_acute]"
definition cree :: string where "cree = ''cr'' @ [e_acute, e_acute]"
definition supprime :: string where "supprime = ''supprim'' @ [e_acute]"
definition modifie :: string where "modifie = ''modifi'' @ [e_acute]"
definition a_jour :: string where "a_jour = [a_grave] @ '' jour''"

section \<open>Access control\<close>

text \<open>
  The class-based views of apps/accounts/views.py that are declared with an access mixin,
  and the mixins each class lists: all but the four Sale views list both.
\<close>

datatype view =
    EmployeeListView | EmployeeCreateView | EmployeeUpdateView | EmployeeDetailView
  | EmployeeDeleteView
  | SupplierListView | SupplierCreateView | SupplierUpdateView | SupplierDetailView
  | SupplierDeleteView
  | CategoryListView | CategoryCreateView | CategoryUpdateView | CategoryDetailView
  | CategoryDeleteView
  | ProductListView | ProductCreateView | ProductUpdateView | ProductDetailView
  | ProductDeleteView
  | SaleListView | SaleBulkDeleteView | SaleDetailView | SaleDeleteView

datatype mixin = LoginRequiredMixin | AdminRequiredMixin

fun bases :: "view \<Rightarrow> mixin list" where
  "bases SaleListView = [LoginRequiredMixin]"
| "bases SaleBulkDeleteView = [LoginRequiredMixin]"
| "bases SaleDetailView = [LoginRequiredMixin]"
| "bases SaleDeleteView = [LoginRequiredMixin]"
| "bases _ = [LoginRequiredMixin, AdminRequiredMixin]"

text \<open>\<^verbatim>\<open>AdminRequiredMixin.test_func\<close>: authenticated and an administrator.\<close>

definition test_func :: "principal \<Rightarrow> bool" where
  "test_func p = (case p of AnonymousUser \<Rightarrow> False | Authenticated u \<Rightarrow> is_admin u)"

definition msg_access_denied :: string where
  "msg_access_denied =
     ''Acc'' @ [e_grave] @ ''s refus'' @ [e_acute] @ '' : administrateurs uniquement.''"

text \<open>
  \<^verbatim>\<open>handle_no_permission\<close>: that of AdminRequiredMixin (the notice, then the redirect to
  login) where the class lists it; otherwise the framework's, 403 for an authenticated
  user and the redirect to the login URL for an anonymous one.
\<close>

definition handle_no_permission :: "view \<Rightarrow> principal \<Rightarrow> state \<Rightarrow> response \<times> state" where
  "handle_no_permission v p st =
     (if AdminRequiredMixin \<in> set (bases v)
      then (Redirect ''accounts:login'', add_message Error msg_access_denied st)
      else if is_authenticated p then (PermissionDenied, st) else (RedirectToLogin, st))"

text \<open>
  \<^verbatim>\<open>dispatch\<close> along the bases: the login check of LoginRequiredMixin, then the test of
  the UserPassesTestMixin behind AdminRequiredMixin, then the handler of the view.
\<close>

definition dispatch ::
  "view \<Rightarrow> principal \<Rightarrow> (state \<Rightarrow> response \<times> state) \<Rightarrow> state \<Rightarrow> response \<times> state" where
  "dispatch v p handler st =
     (if LoginRequiredMixin \<in> set (bases v) \<and> \<not> is_authenticated p
      then handle_no_permission v p st
      else if AdminRequiredMixin \<in> set (bases v) \<and> \<not> test_func p
      then handle_no_permission v p st
      else handler st)"

section \<open>Generic view machinery\<close>

text \<open>
  \<^verbatim>\<open>get_object\<close> and \<^verbatim>\<open>get_object_or_404\<close>: the row of the queryset with the key of the
  URL; None stands for Http404.
\<close>

definition get_object :: "('a \<Rightarrow> pk) \<Rightarrow> 'a list \<Rightarrow> pk \<Rightarrow> 'a option" where
  "get_object key qs k = find (\<lambda>x. key x = k) qs"

text \<open>
  \<^verbatim>\<open>ProcessFormView.post\<close>: \<^verbatim>\<open>form_valid\<close> for a valid form, \<^verbatim>\<open>form_invalid\<close> otherwise;
  the inherited \<^verbatim>\<open>form_invalid\<close> renders the template again with the form's errors.
\<close>

definition ProcessFormView_post ::
  "'a form \<Rightarrow> ('a \<Rightarrow> state \<Rightarrow> response \<times> state) \<Rightarrow> ('a form \<Rightarrow> state \<Rightarrow> response \<times> state)
     \<Rightarrow> state \<Rightarrow> response \<times> state" where
  "ProcessFormView_post form form_valid form_invalid st =
     (case form of Valid c \<Rightarrow> form_valid c st | _ \<Rightarrow> form_invalid form st)"

definition FormMixin_form_invalid :: "string \<Rightarrow> 'a form \<Rightarrow> state \<Rightarrow> response \<times> state" where
  "FormMixin_form_invalid template form st = (RenderForm template (form_errors form), st)"

text \<open>
  The paginator of a ListView: the page asked for (the first by default); Http404 (None)
  for a page that is not a number or does not exist. An empty list has one empty page.
\<close>

datatype page_param = PageDefault | PageNumber int | PageLast | PageInvalid

definition num_pages :: "nat \<Rightarrow> nat \<Rightarrow> nat" where
  "num_pages per n = (if n = 0 then 1 else (n + per - 1) div per)"

definition paginate :: "nat \<Rightarrow> page_param \<Rightarrow> 'a list \<Rightarrow> 'a list option" where
  "paginate per pg xs =
     (let np = int (num_pages per (length xs));
          number = (case pg of PageDefault \<Rightarrow> Some 1 | PageNumber i \<Rightarrow> Some i
                    | PageLast \<Rightarrow> Some np | PageInvalid \<Rightarrow> None)
      in case number of
           None \<Rightarrow> None
         | Some i \<Rightarrow> if i < 1 \<or> np < i then None
                     else Some (take per (drop ((nat i - 1) * per) xs)))"

section \<open>Sales: create and update\<close>

text \<open>\<^verbatim>\<open>sale.save()\<close>: update the row of that key, insert it when there is none.\<close>

definition Sale_save :: "sale \<Rightarrow> state \<Rightarrow> state" where
  "Sale_save s st =
     (if list_ex (\<lambda>r. sale_pk r = sale_pk s) (sales st)
      then st\<lparr>sales := map (\<lambda>r. if sale_pk r = sale_pk s then s else r) (sales st)\<rparr>
      else st\<lparr>sales := sales st @ [s]\<rparr>)"

text \<open>The Sale a SaleForm without instance builds, and the cleaned fields set on an instance.\<close>

definition SaleForm_new :: "sale_header \<Rightarrow> state \<Rightarrow> sale" where
  "SaleForm_new h st =
     \<lparr>sale_pk = next_pk (map sale_pk (sales st)), invoice_number = h_invoice_number h,
      date = h_date h, cashier = h_cashier h, status = h_status h, total_amount = 0,
      discount = None\<rparr>"

definition SaleForm_apply :: "sale_header \<Rightarrow> sale \<Rightarrow> sale" where
  "SaleForm_apply h s =
     s\<lparr>invoice_number := h_invoice_number h, date := h_date h, cashier := h_cashier h,
       status := h_status h\<rparr>"

text \<open>
  \<^verbatim>\<open>formset.save()\<close> for the sale \<open>k\<close>: first the forms of existing lines (deletions and
  changes, each on a line of this sale), then the new lines.
\<close>

fun save_existing :: "pk \<Rightarrow> item_form \<Rightarrow> sale_item list \<Rightarrow> sale_item list" where
  "save_existing k (DeleteItem i) its = filter (\<lambda>x. \<not> (item_pk x = i \<and> item_sale x = k)) its"
| "save_existing k (ChangeItem i p q u) its =
     map (\<lambda>x. if item_pk x = i \<and> item_sale x = k
               then x\<lparr>item_product := p, quantity := q, unit_price := u\<rparr> else x) its"
| "save_existing k _ its = its"

fun save_new :: "pk \<Rightarrow> item_form \<Rightarrow> sale_item list \<Rightarrow> sale_item list" where
  "save_new k (AddItem p q u) its =
     its @ [\<lparr>item_pk = next_pk (map item_pk its), item_sale = k, item_product = p,
             quantity = q, unit_price = u\<rparr>]"
| "save_new k _ its = its"

definition formset_save :: "pk \<Rightarrow> formset \<Rightarrow> state \<Rightarrow> state" where
  "formset_save k fs st =
     (case fs of Formset fl errs \<Rightarrow>
        st\<lparr>sale_items := fold (save_new k) (cleaned_forms fl)
                            (fold (save_existing k) (cleaned_forms fl) (sale_items st))\<rparr>)"

text \<open>
  The lines both views run once the forms are valid, \<open>sale0\<close> being the Sale of
  \<^verbatim>\<open>form.save()\<close>: save it, save the formset, set \<^verbatim>\<open>total_amount\<close> to the sum of
  \<^verbatim>\<open>line_total\<close> over \<^verbatim>\<open>sale.items.all()\<close>, save again, then notice, log entry and redirect.
\<close>

definition save_sale ::
  "principal \<Rightarrow> sale \<Rightarrow> formset \<Rightarrow> string \<Rightarrow> string \<Rightarrow> string \<Rightarrow> string \<Rightarrow> state \<Rightarrow> response \<times> state" where
  "save_sale p sale0 formset ending v l i st =
     (let st1 = Sale_save sale0 st;
          st2 = formset_save (sale_pk sale0) formset st1;
          sale1 = sale0\<lparr>total_amount :=
                    sum_list (map line_total (sale_items_all st2 (sale_pk sale0)))\<rparr>;
          st3 = Sale_save sale1 st2
      in notify_and_log p (''Vente '' @ invoice_number sale1 @ '' '' @ ending) v l i
           ''accounts:sale_list'' st3)"

definition sale_create :: "principal \<Rightarrow> sale_request \<Rightarrow> state \<Rightarrow> response \<times> state" where
  "sale_create p req st =
     (case req of
        POST form formset \<Rightarrow>
          (case form of
             Valid h \<Rightarrow>
               if formset_is_valid formset
               then save_sale p (SaleForm_new h st) formset (''enregistr'' @ [e_acute] @ ''e.'')
                      (''Vente '' @ cree @ ''e'') ''success'' ''shopping-cart'' st
               else (RenderSaleForm form formset, st)
           | _ \<Rightarrow> (RenderSaleForm form formset, st))
      | GET \<Rightarrow> (RenderSaleForm Blank (Formset [] []), st))"

definition initial_forms :: "sale \<Rightarrow> state \<Rightarrow> response" where
  "initial_forms s st =
     RenderSaleForm
       (Initial \<lparr>h_invoice_number = invoice_number s, h_date = date s, h_cashier = cashier s,
                 h_status = status s\<rparr>)
       (Formset (map (\<lambda>i. Initial (ChangeItem (item_pk i) (item_product i) (quantity i)
                                     (unit_price i))) (sale_items_all st (sale_pk s))) [])"

definition sale_update :: "principal \<Rightarrow> sale_request \<Rightarrow> pk \<Rightarrow> state \<Rightarrow> response \<times> state" where
  "sale_update p req k st =
     (case get_object sale_pk (sales st) k of
        None \<Rightarrow> (Http404, st)
      | Some sale \<Rightarrow>
          (case req of
             POST form formset \<Rightarrow>
               (case form of
                  Valid h \<Rightarrow>
                    if formset_is_valid formset
                    then save_sale p (SaleForm_apply h sale) formset (''mise '' @ a_jour @ ''.'')
                           (''Vente '' @ modifie @ ''e'') ''info'' ''edit'' st
                    else (RenderSaleForm form formset, st)
                | _ \<Rightarrow> (RenderSaleForm form formset, st))
           | GET \<Rightarrow> (initial_forms sale st, st)))"

section \<open>Employees\<close>

text \<open>\<^verbatim>\<open>User.objects.exclude(pk=self.request.user.pk)\<close> and \<^verbatim>\<open>.order_by('-date_joined')\<close>.\<close>

definition exclude_self :: "principal \<Rightarrow> user list \<Rightarrow> user list" where
  "exclude_self p us =
     (case p of AnonymousUser \<Rightarrow> us
      | Authenticated c \<Rightarrow> filter (\<lambda>u. user_pk u \<noteq> user_pk c) us)"

definition order_by_date_joined_desc :: "user list \<Rightarrow> user list" where
  "order_by_date_joined_desc us = sort_key (\<lambda>u. - int (date_joined u)) us"

text \<open>The cleaned data of EmployeeSearchForm; an empty choice is the empty text or None.\<close>

record employee_search =
  es_search :: string
  es_role :: "role option"
  es_status :: string

text \<open>
  \<^verbatim>\<open>EmployeeListView.get_queryset\<close>. The union \<^verbatim>\<open>|\<close> of the three filtered querysets is
  the queryset of the rows that pass one of the three filters.
\<close>

definition EmployeeListView_get_queryset ::
  "principal \<Rightarrow> employee_search form \<Rightarrow> state \<Rightarrow> user list" where
  "EmployeeListView_get_queryset p form st =
     (let qs = order_by_date_joined_desc (exclude_self p (users st))
      in case form of
           Valid c \<Rightarrow>
             (let qs1 = (if es_search c \<noteq> []
                         then filter (\<lambda>u. icontains (first_name u) (es_search c)
                                           \<or> icontains (last_name u) (es_search c)
                                           \<or> icontains (email u) (es_search c)) qs
                         else qs);
                  qs2 = (case es_role c of Some r \<Rightarrow> filter (\<lambda>u. role u = r) qs1 | None \<Rightarrow> qs1)
              in if es_status c = ''active'' then filter (\<lambda>u. is_active u) qs2
                 else if es_status c = ''inactive'' then filter (\<lambda>u. \<not> is_active u) qs2
                 else qs2)
         | _ \<Rightarrow> qs)"

text \<open>The \<^verbatim>\<open>get_queryset\<close> of the detail, update and delete views.\<close>

definition Employee_get_queryset :: "principal \<Rightarrow> state \<Rightarrow> user list" where
  "Employee_get_queryset p st = exclude_self p (users st)"

definition EmployeeDetailView_get :: "principal \<Rightarrow> pk \<Rightarrow> state \<Rightarrow> response \<times> state" where
  "EmployeeDetailView_get p k =
     dispatch EmployeeDetailView p
       (\<lambda>st. case get_object user_pk (Employee_get_queryset p st) k of
                None \<Rightarrow> (Http404, st)
              | Some obj \<Rightarrow> (RenderEmployeeDetail obj, st))"




definition EmployeeUpdateView_form_valid ::
  "principal \<Rightarrow> user \<Rightarrow> user_data \<Rightarrow> state \<Rightarrow> response \<times> state" where
  "EmployeeUpdateView_form_valid p obj c st =
     (let obj1 = obj\<lparr>first_name := d_first_name c, last_name := d_last_name c,
                     email := d_email c, role := d_role c, is_active := d_is_active c\<rparr>
      in notify_and_log p (Employe @ '' '' @ get_full_name obj1 @ '' mis '' @ a_jour @ '' !'')
           (Employe @ '' '' @ modifie) ''info'' ''edit'' ''accounts:employee_list''
           (st\<lparr>users := map (\<lambda>u. if user_pk u = user_pk obj then obj1 else u) (users st)\<rparr>))"

definition EmployeeUpdateView_post ::
  "principal \<Rightarrow> pk \<Rightarrow> user_data form \<Rightarrow> state \<Rightarrow> response \<times> state" where
  "EmployeeUpdateView_post p k form =
     dispatch EmployeeUpdateView p
       (\<lambda>st. case get_object user_pk (Employee_get_queryset p st) k of
                None \<Rightarrow> (Http404, st)
              | Some obj \<Rightarrow>
                  ProcessFormView_post form (EmployeeUpdateView_form_valid p obj)
                    (FormMixin_form_invalid ''accounts/employees/employee_form.html'') st)"

text \<open>
  \<^verbatim>\<open>EmployeeDeleteView.delete\<close>. The row of the user is removed; what becomes of rows of
  other tables that refer to it is declared with the models and is left open here.
\<close>

definition EmployeeDeleteView_delete :: "principal \<Rightarrow> pk \<Rightarrow> state \<Rightarrow> response \<times> state" where
  "EmployeeDeleteView_delete p k st =
     (case get_object user_pk (Employee_get_queryset p st) k of
        None \<Rightarrow> (Http404, st)
      | Some obj \<Rightarrow>
          notify_and_log p (Employe @ '' '' @ get_full_name obj @ '' '' @ supprime @ '' !'')
            (Employe @ '' '' @ supprime) ''danger'' ''trash'' ''accounts:employee_list''
            (st\<lparr>users := filter (\<lambda>u. user_pk u \<noteq> user_pk obj) (users st)\<rparr>))"

definition EmployeeDeleteView_post :: "principal \<Rightarrow> pk \<Rightarrow> state \<Rightarrow> response \<times> state" where
  "EmployeeDeleteView_post p k = dispatch EmployeeDeleteView p (EmployeeDeleteView_delete p k)"

section \<open>Registration\<close>





section \<open>Products\<close>

text \<open>
  \<^verbatim>\<open>ProductDeleteView.delete\<close>, in its two steps: \<^verbatim>\<open>obj.items.all().delete()\<close> removes the
  sale items of the product, \<^verbatim>\<open>super().delete(...)\<close> then removes the product.
\<close>

definition delete_product_items :: "pk \<Rightarrow> state \<Rightarrow> state" where
  "delete_product_items k st = st\<lparr>sale_items := filter (\<lambda>i. item_product i \<noteq> k) (sale_items st)\<rparr>"

definition delete_product :: "pk \<Rightarrow> state \<Rightarrow> state" where
  "delete_product k st = st\<lparr>products := filter (\<lambda>r. product_pk r \<noteq> k) (products st)\<rparr>"

definition elements :: string where
  "elements = [e_acute] @ ''l'' @ [e_acute] @ ''ments de vente''"

definition ProductDeleteView_delete :: "principal \<Rightarrow> pk \<Rightarrow> state \<Rightarrow> response \<times> state" where
  "ProductDeleteView_delete p k st =
     (case get_object product_pk (products st) k of
        None \<Rightarrow> (Http404, st)
      | Some obj \<Rightarrow>
          (let st1 = delete_product_items (product_pk obj) st;
               name = product_name obj;
               st2 = delete_product (product_pk obj) st1
           in notify_and_log p
                (''Produit '' @ [apostrophe] @ name @ [apostrophe] @ '' et ses '' @ elements
                   @ '' associ'' @ [e_acute] @ ''s ont '' @ [e_acute] @ ''t'' @ [e_acute] @ '' ''
                   @ supprime @ ''s.'')
                (''Produit et '' @ elements @ '' '' @ supprime @ ''s'') ''danger'' ''trash''
                ''accounts:product_list'' st2))"

definition ProductDeleteView_post :: "principal \<Rightarrow> pk \<Rightarrow> state \<Rightarrow> response \<times> state" where
  "ProductDeleteView_post p k = dispatch ProductDeleteView p (ProductDeleteView_delete p k)"

section \<open>Sales: list, deletion and the JSON projection\<close>

text \<open>The cleaned data of SaleSearchForm; a field left empty is the empty text or None.\<close>

type_synonym caldate = "nat \<times> nat \<times> nat"

definition caldate_ord :: "caldate \<Rightarrow> nat" where
  "caldate_ord d = (case d of (y, m, dd) \<Rightarrow> (y * 12 + (m - 1)) * 31 + (dd - 1))"

record sale_search =
  ss_product_name :: string
  ss_invoice_number :: string
  ss_cashier :: "pk option"
  ss_status :: string
  ss_date_from :: "caldate option"
  ss_date_to :: "caldate option"

text \<open>\<^verbatim>\<open>items__product__name__icontains=pn\<close>: one of the sale's lines is of such a product.\<close>

definition has_product_named :: "state \<Rightarrow> string \<Rightarrow> sale \<Rightarrow> bool" where
  "has_product_named st pn s =
     list_ex (\<lambda>i. item_sale i = sale_pk s
                \<and> list_ex (\<lambda>r. product_pk r = item_product i \<and> icontains (product_name r) pn)
                     (products st))
       (sale_items st)"

definition order_by_date_desc :: "sale list \<Rightarrow> sale list" where
  "order_by_date_desc ss = sort_key (\<lambda>s. - int (datetime_ord (date s))) ss"

definition SaleListView_get_queryset :: "sale_search form \<Rightarrow> state \<Rightarrow> sale list" where
  "SaleListView_get_queryset form st =
     (let qs = order_by_date_desc (sales st)
      in case form of
           Valid c \<Rightarrow>
             (let qs1 = (if ss_product_name c \<noteq> []
                         then filter (has_product_named st (ss_product_name c)) qs else qs);
                  qs2 = (if ss_invoice_number c \<noteq> []
                         then filter (\<lambda>s. icontains (invoice_number s) (ss_invoice_number c)) qs1
                         else qs1);
                  qs3 = (case ss_cashier c of Some u \<Rightarrow> filter (\<lambda>s. cashier s = u) qs2
                         | None \<Rightarrow> qs2);
                  qs4 = (if ss_status c \<noteq> [] then filter (\<lambda>s. status s = ss_status c) qs3
                         else qs3);
                  qs5 = (case ss_date_from c of
                           Some d \<Rightarrow> filter (\<lambda>s. caldate_ord d \<le> date_ord (date s)) qs4
                         | None \<Rightarrow> qs4)
              in case ss_date_to c of
                   Some d \<Rightarrow> filter (\<lambda>s. date_ord (date s) \<le> caldate_ord d) qs5
                 | None \<Rightarrow> qs5)
         | _ \<Rightarrow> qs)"

text \<open>
  \<^verbatim>\<open>SaleListView\<close> with \<^verbatim>\<open>get_context_data\<close>: \<^verbatim>\<open>total_revenue\<close> is the sum over
  \<^verbatim>\<open>ctx['page_obj']\<close>, the page of 7 rows the paginator cut out of the queryset.
\<close>

definition SaleListView_get ::
  "principal \<Rightarrow> sale_search form \<Rightarrow> page_param \<Rightarrow> state \<Rightarrow> response \<times> state" where
  "SaleListView_get p form pg =
     dispatch SaleListView p
       (\<lambda>st. case paginate 7 pg (SaleListView_get_queryset form st) of
                None \<Rightarrow> (Http404, st)
              | Some page_obj \<Rightarrow>
                  (RenderSaleList page_obj (sum_list (map total_amount page_obj)), st))"

text \<open>
  Deleting sales. Modelled from the spec: the foreign key of SaleItem to Sale; the spec has
  a SaleItem deleted when its Sale is.
\<close>

definition delete_sales :: "(sale \<Rightarrow> bool) \<Rightarrow> state \<Rightarrow> state" where
  "delete_sales doomed st =
     st\<lparr>sales := filter (\<lambda>s. \<not> doomed s) (sales st),
        sale_items :=
          filter (\<lambda>i. \<not> list_ex (\<lambda>s. doomed s \<and> sale_pk s = item_sale i) (sales st))
            (sale_items st)\<rparr>"

definition msg_bulk_deleted :: "nat \<Rightarrow> string" where
  "msg_bulk_deleted count = str_nat count @ '' vente(s) '' @ supprime @ ''e(s).''"

definition msg_none_selected :: string where
  "msg_none_selected = ''Aucune vente s'' @ [e_acute] @ ''lectionn'' @ [e_acute] @ ''e.''"

text \<open>
  \<^verbatim>\<open>SaleBulkDeleteView.post\<close>; \<open>ids\<close> are the values of the field \<^verbatim>\<open>sale_ids\<close>, as the keys
  they denote.
\<close>

definition SaleBulkDeleteView_handler :: "principal \<Rightarrow> pk list \<Rightarrow> state \<Rightarrow> response \<times> state" where
  "SaleBulkDeleteView_handler p ids st =
     (if ids \<noteq> [] then
        (let count = length (filter (\<lambda>s. sale_pk s \<in> set ids) (sales st));
             st1 = delete_sales (\<lambda>s. sale_pk s \<in> set ids) st;
             st2 = add_message Success (msg_bulk_deleted count) st1
         in case ActivityLog_create p
                   (str_nat count @ '' vente(s) '' @ supprime @ ''e(s) en masse'')
                   ''danger'' ''trash'' st2 of
              None \<Rightarrow> (ServerError, st2)
            | Some st3 \<Rightarrow> (Redirect ''accounts:sale_list'', st3))
      else (Redirect ''accounts:sale_list'', add_message Info msg_none_selected st))"

definition SaleBulkDeleteView_post :: "principal \<Rightarrow> pk list \<Rightarrow> state \<Rightarrow> response \<times> state" where
  "SaleBulkDeleteView_post p ids = dispatch SaleBulkDeleteView p (SaleBulkDeleteView_handler p ids)"

definition SaleDeleteView_delete :: "principal \<Rightarrow> pk \<Rightarrow> state \<Rightarrow> response \<times> state" where
  "SaleDeleteView_delete p k st =
     (case get_object sale_pk (sales st) k of
        None \<Rightarrow> (Http404, st)
      | Some sale \<Rightarrow>
          notify_and_log p (''Vente '' @ invoice_number sale @ '' '' @ supprime @ ''e.'')
            (''Vente '' @ supprime @ ''e'') ''danger'' ''trash'' ''accounts:sale_list''
            (delete_sales (\<lambda>s. sale_pk s = sale_pk sale) st))"

definition SaleDeleteView_post :: "principal \<Rightarrow> pk \<Rightarrow> state \<Rightarrow> response \<times> state" where
  "SaleDeleteView_post p k = dispatch SaleDeleteView p (SaleDeleteView_delete p k)"





section \<open>The spec's predicates\<close>

text \<open>The invariant of the spec: the stored total of sale \<open>k\<close> is the sum over its lines.\<close>

definition total_is_sum :: "state \<Rightarrow> pk \<Rightarrow> bool" where
  "total_is_sum st k =
     (case get_object sale_pk (sales st) k of
        None \<Rightarrow> False
      | Some s \<Rightarrow> total_amount s = (\<Sum>i\<leftarrow>sale_items_all st k. quantity i * unit_price i))"

text \<open>The term is a substring of the field when the case of letters is ignored.\<close>

definition substring_ignoring_case :: "string \<Rightarrow> string \<Rightarrow> bool" where
  "substring_ignoring_case term field \<longleftrightarrow>
     (\<exists>a b. map lower_char field = a @ map lower_char term @ b)"

text \<open>The three conditions of an employee search, as one predicate on a user.\<close>

definition employee_match :: "employee_search \<Rightarrow> user \<Rightarrow> bool" where
  "employee_match c u \<longleftrightarrow>
     (es_search c = [] \<or> substring_ignoring_case (es_search c) (first_name u)
        \<or> substring_ignoring_case (es_search c) (last_name u)
        \<or> substring_ignoring_case (es_search c) (email u))
     \<and> (case es_role c of None \<Rightarrow> True | Some r \<Rightarrow> role u = r)
     \<and> (if es_status c = ''active'' then is_active u
         else if es_status c = ''inactive'' then \<not> is_active u else True)"




section \<open>Sample data\<close>

definition demo_admin :: user where
  "demo_admin = \<lparr>user_pk = 1, first_name = ''Awa'', last_name = ''Diallo'',
     email = ''awa@example.org'', role = Admin, is_active = True, date_joined = 10\<rparr>"

definition demo_cashier :: user where
  "demo_cashier = \<lparr>user_pk = 2, first_name = ''Marc'', last_name = ''Dupont'',
     email = ''marc@example.org'', role = Cashier, is_active = True, date_joined = 20\<rparr>"

definition demo_date :: datetime where
  "demo_date = \<lparr>year = 2024, month = 3, day = 7, hour = 9, minute = 5, second = 0\<rparr>"

definition demo_sale :: "nat \<Rightarrow> money \<Rightarrow> sale" where
  "demo_sale n t =
     \<lparr>sale_pk = int n, invoice_number = ''F-00'' @ str_nat n, date = demo_date\<lparr>day := n\<rparr>,
      cashier = 2, status = ''paid'', total_amount = t, discount = None\<rparr>"

definition demo_state :: state where
  "demo_state =
     \<lparr>users = [demo_admin, demo_cashier],
      products = [\<lparr>product_pk = 1, product_name = ''Cafe''\<rparr>,
                  \<lparr>product_pk = 2, product_name = ''The''\<rparr>],
      sales = [demo_sale 7 2500, demo_sale 8 700],
      sale_items =
        [\<lparr>item_pk = 1, item_sale = 7, item_product = 1, quantity = 2, unit_price = 1000\<rparr>,
         \<lparr>item_pk = 2, item_sale = 7, item_product = 2, quantity = 1, unit_price = 500\<rparr>,
         \<lparr>item_pk = 3, item_sale = 8, item_product = 2, quantity = 2, unit_price = 350\<rparr>],
      activity_log = [],
      messages = []\<rparr>"

definition demo_header :: sale_header where
  "demo_header =
     \<lparr>h_invoice_number = ''F-009'', h_date = demo_date, h_cashier = 2, h_status = ''paid''\<rparr>"

definition demo_post :: sale_request where
  "demo_post =
     POST (Valid demo_header)
       (Formset [Valid (DeleteItem 1), Valid (ChangeItem 2 2 3 500), Valid (AddItem 1 1 1200),
                 Valid Unchanged] [])"

definition demo_bad_forms :: "item_form form list" where
  "demo_bad_forms = [Valid (AddItem 1 2 1000), Invalid [(''quantity'', ''required'')]]"

definition demo_created :: "response \<times> state" where
  "demo_created = sale_create (Authenticated demo_admin) demo_post demo_state"

definition demo_updated :: "response \<times> state" where
  "demo_updated = sale_update (Authenticated demo_admin) demo_post 7 demo_state"

definition demo_product_deleted :: "response \<times> state" where
  "demo_product_deleted = ProductDeleteView_post (Authenticated demo_admin) 2 demo_state"

definition demo_bulk :: "pk list \<Rightarrow> response \<times> state" where
  "demo_bulk ids = SaleBulkDeleteView_post (Authenticated demo_admin) ids demo_state"

definition demo_many_sales :: state where
  "demo_many_sales =
     demo_state\<lparr>sales := map (\<lambda>n. demo_sale n (100 * int n)) [1, 2, 3, 4, 5, 6, 7, 8]\<rparr>"

section \<open>Shared facts\<close>

lemma notify_and_log_tables:
  assumes "notify_and_log p n v l i url st = (r, st')"
  shows "users st' = users st" "products st' = products st" "sales st' = sales st"
    "sale_items st' = sale_items st"
  using assms
  by (auto simp: notify_and_log_def Let_def add_message_def ActivityLog_create_def
      split: option.splits principal.splits)

lemma get_object_None: "get_object key qs k = None \<longleftrightarrow> (\<forall>x\<in>set qs. key x \<noteq> k)"
  by (auto simp: get_object_def find_None_iff)

lemma get_object_key: "get_object key qs k = Some x \<Longrightarrow> key x = k"
  by (auto simp: get_object_def find_Some_iff)

lemma dispatch_admin_passes: "test_func p \<Longrightarrow> dispatch v p handler st = handler st"
  by (cases p) (simp_all add: dispatch_def test_func_def is_authenticated_def)

lemma dispatch_admin_rejects:
  "AdminRequiredMixin \<in> set (bases v) \<Longrightarrow> \<not> test_func p \<Longrightarrow>
   dispatch v p handler st = (Redirect ''accounts:login'', add_message Error msg_access_denied st)"
  by (simp add: dispatch_def handle_no_permission_def)


section \<open>The stored total of a sale\<close>

lemma get_object_Sale_save: "get_object sale_pk (sales (Sale_save s st)) (sale_pk s) = Some s"
proof -
  have upd: "list_ex (\<lambda>r. sale_pk r = sale_pk s) xs \<Longrightarrow>
      find (\<lambda>r. sale_pk r = sale_pk s) (map (\<lambda>r. if sale_pk r = sale_pk s then s else r) xs)
        = Some s" for xs
    by (induction xs) auto
  have ins: "\<not> list_ex (\<lambda>r. sale_pk r = sale_pk s) xs \<Longrightarrow>
      find (\<lambda>r. sale_pk r = sale_pk s) (xs @ [s]) = Some s" for xs
    by (induction xs) auto
  show ?thesis
    by (simp add: get_object_def Sale_save_def upd ins)
qed

lemma save_sale_total:
  assumes "save_sale p s0 fs e v l i st = (r, st')"
  shows "total_is_sum st' (sale_pk s0)"
proof -
  define st2 where "st2 = formset_save (sale_pk s0) fs (Sale_save s0 st)"
  define s1 where
    "s1 = s0\<lparr>total_amount := sum_list (map line_total (sale_items_all st2 (sale_pk s0)))\<rparr>"
  from assms have "notify_and_log p (''Vente '' @ invoice_number s1 @ '' '' @ e) v l i
      ''accounts:sale_list'' (Sale_save s1 st2) = (r, st')"
    by (simp add: save_sale_def Let_def st2_def s1_def)
  note t = notify_and_log_tables(3,4) [OF this]
  have "get_object sale_pk (sales st') (sale_pk s0) = Some s1"
    using get_object_Sale_save [of s1 st2] by (simp add: t s1_def)
  moreover have "sale_items_all st' (sale_pk s0) = sale_items_all st2 (sale_pk s0)"
    by (simp add: sale_items_all_def t Sale_save_def)
  ultimately show ?thesis
    by (simp add: total_is_sum_def s1_def line_total_def [abs_def])
qed

text \<open>
  C1. Whenever sale_create or sale_update succeeds (it answers with the redirect to the sale
  list), the sale is stored and its stored total_amount is the sum of quantity times unit
  price over the lines the sale has after the write, lines added, changed and removed by
  the formset included. The total is a function of the current lines alone.
\<close>

theorem sale_total_rederived:
  "(sale_create p req st = (Redirect ''accounts:sale_list'', st') \<longrightarrow>
      total_is_sum st' (next_pk (map sale_pk (sales st))))
   \<and> (sale_update p req k st = (Redirect ''accounts:sale_list'', st') \<longrightarrow> total_is_sum st' k)"
proof (intro conjI impI)
  assume "sale_create p req st = (Redirect ''accounts:sale_list'', st')"
  then obtain h fs e v l i where
    "save_sale p (SaleForm_new h st) fs e v l i st = (Redirect ''accounts:sale_list'', st')"
    by (auto simp: sale_create_def split: sale_request.splits form.splits if_splits)
  from save_sale_total [OF this] show "total_is_sum st' (next_pk (map sale_pk (sales st)))"
    by (simp add: SaleForm_new_def)
next
  assume "sale_update p req k st = (Redirect ''accounts:sale_list'', st')"
  then obtain s h fs e v l i where "get_object sale_pk (sales st) k = Some s"
    and "save_sale p (SaleForm_apply h s) fs e v l i st = (Redirect ''accounts:sale_list'', st')"
    by (auto simp: sale_update_def initial_forms_def
        split: option.splits sale_request.splits form.splits if_splits)
  from save_sale_total [OF this(2)] get_object_key [OF this(1)] show "total_is_sum st' k"
    by (simp add: SaleForm_apply_def)
qed

theorem sale_total_rederived_witness:
  "demo_created = (Redirect ''accounts:sale_list'', snd demo_created)
   \<and> total_is_sum (snd demo_created) (next_pk (map sale_pk (sales demo_state)))
   \<and> demo_updated = (Redirect ''accounts:sale_list'', snd demo_updated)
   \<and> total_is_sum (snd demo_updated) 7
   \<and> map total_amount (sales (snd demo_updated)) = [2700, 700]"
proof -
  have "fst demo_created = Redirect ''accounts:sale_list''"
    and "fst demo_updated = Redirect ''accounts:sale_list''"
    by code_simp+
  then have c: "demo_created = (Redirect ''accounts:sale_list'', snd demo_created)"
    and u: "demo_updated = (Redirect ''accounts:sale_list'', snd demo_updated)"
    by (simp_all add: prod_eq_iff)
  have t: "map total_amount (sales (snd demo_updated)) = [2700, 700]"
    by code_simp
  show ?thesis
    using c u t
      sale_total_rederived [of "Authenticated demo_admin" demo_post demo_state "snd demo_created"]
      sale_total_rederived [of "Authenticated demo_admin" demo_post demo_state "snd demo_updated" 7]
    by (simp add: demo_created_def [symmetric] demo_updated_def [symmetric])
qed

section \<open>A rejected sale submission\<close>

text \<open>
  C2. A sale submission whose header is invalid, or one of whose line items is invalid (or
  whose formset has an error of its own), persists nothing: sale_create returns the form
  again and the state it was given, and sale_update leaves the state as it was.
\<close>

theorem invalid_sale_submission_persists_nothing:
  assumes "\<not> form_is_valid form \<or> (\<exists>f\<in>set fl. \<not> form_is_valid f) \<or> errs \<noteq> []"
  shows "sale_create p (POST form (Formset fl errs)) st = (RenderSaleForm form (Formset fl errs), st)
         \<and> snd (sale_update p (POST form (Formset fl errs)) k st) = st"
proof -
  from assms have "\<not> form_is_valid form \<or> \<not> formset_is_valid (Formset fl errs)"
    by (auto simp: formset_is_valid_def list_all_iff)
  then show ?thesis
    by (cases form)
      (auto simp: sale_create_def sale_update_def form_is_valid_def split: option.splits)
qed

theorem invalid_sale_submission_persists_nothing_witness:
  "(\<exists>f\<in>set demo_bad_forms. \<not> form_is_valid f)
   \<and> sale_create AnonymousUser (POST (Valid demo_header) (Formset demo_bad_forms [])) demo_state
       = (RenderSaleForm (Valid demo_header) (Formset demo_bad_forms []), demo_state)
   \<and> snd (sale_update AnonymousUser (POST (Valid demo_header) (Formset demo_bad_forms [])) 7 demo_state)
       = demo_state"
proof -
  have "\<exists>f\<in>set demo_bad_forms. \<not> form_is_valid f"
    by (simp add: demo_bad_forms_def form_is_valid_def)
  then show ?thesis
    using invalid_sale_submission_persists_nothing
      [of "Valid demo_header" demo_bad_forms "[]" AnonymousUser demo_state 7]
    by blast
qed

section \<open>Deleting a product\<close>

text \<open>
  C3. A successful delete of the product k (the view answers with the redirect to the product
  list) runs in two steps: the first removes the sale items of the product and leaves the
  product in place, the second removes the product. Afterwards no sale item refers to k,
  no product has the key k, exactly the N items of the product are gone, and the other
  products, the items of other products, the sales and the users are as before.
\<close>

theorem product_delete_cascades:
  assumes "ProductDeleteView_post p k st = (Redirect ''accounts:product_list'', st')"
  shows "product_items_all (delete_product_items k st) k = []
     \<and> products (delete_product_items k st) = products st
     \<and> sale_items st' = filter (\<lambda>i. item_product i \<noteq> k) (sale_items st)
     \<and> products st' = filter (\<lambda>r. product_pk r \<noteq> k) (products st)
     \<and> product_items_all st' k = []
     \<and> get_object product_pk (products st') k = None
     \<and> length (sale_items st') + length (product_items_all st k) = length (sale_items st)
     \<and> sales st' = sales st \<and> users st' = users st"
proof -
  from assms have run: "ProductDeleteView_delete p k st = (Redirect ''accounts:product_list'', st')"
    by (auto simp: ProductDeleteView_post_def dispatch_def handle_no_permission_def
        split: if_splits)
  then obtain obj :: product where obj: "get_object product_pk (products st) k = Some obj"
    by (cases "get_object product_pk (products st) k")
      (auto simp: ProductDeleteView_delete_def)
  from run obj get_object_key [OF obj] obtain n v where
    "notify_and_log p n v ''danger'' ''trash'' ''accounts:product_list''
       (delete_product k (delete_product_items k st)) = (Redirect ''accounts:product_list'', st')"
    by (simp add: ProductDeleteView_delete_def Let_def)
  note t = notify_and_log_tables [OF this]
  have len: "length (filter (\<lambda>i. item_product i \<noteq> k) xs)
      + length (filter (\<lambda>i. item_product i = k) xs) = length xs" for xs :: "sale_item list"
    by (induction xs) auto
  show ?thesis
    by (simp add: t delete_product_def delete_product_items_def product_items_all_def
        get_object_None len)
qed

theorem product_delete_cascades_witness:
  "demo_product_deleted = (Redirect ''accounts:product_list'', snd demo_product_deleted)
   \<and> length (product_items_all demo_state 2) = 2
   \<and> product_items_all (snd demo_product_deleted) 2 = []
   \<and> map product_pk (products (snd demo_product_deleted)) = [1]
   \<and> map item_pk (sale_items (snd demo_product_deleted)) = [1]"
proof -
  have "fst demo_product_deleted = Redirect ''accounts:product_list''"
    by code_simp
  then have h: "demo_product_deleted = (Redirect ''accounts:product_list'', snd demo_product_deleted)"
    by (simp add: prod_eq_iff)
  have e: "length (product_items_all demo_state 2) = 2"
    "map product_pk (products (snd demo_product_deleted)) = [1]"
    "map item_pk (sale_items (snd demo_product_deleted)) = [1]"
    by code_simp+
  show ?thesis
    using h e product_delete_cascades [of "Authenticated demo_admin" 2 demo_state
        "snd demo_product_deleted"]
    by (simp add: demo_product_deleted_def [symmetric])
qed

section \<open>Bulk deletion of sales\<close>

lemma bulk_count:
  assumes "distinct ids" "set ids \<subseteq> sale_pk ` set xs" "distinct (map sale_pk xs)"
  shows "length (filter (\<lambda>s. sale_pk s \<in> set ids) xs) = length ids"
proof -
  have m: "map sale_pk (filter (\<lambda>s. sale_pk s \<in> set ids) xs)
      = filter (\<lambda>k. k \<in> set ids) (map sale_pk xs)"
    by (simp add: filter_map o_def)
  have d: "distinct (filter (\<lambda>k. k \<in> set ids) (map sale_pk xs))"
    using assms(3) by simp
  have s: "set (filter (\<lambda>k. k \<in> set ids) (map sale_pk xs)) = set ids"
    using assms(2) by auto
  have "length (filter (\<lambda>s. sale_pk s \<in> set ids) xs)
      = length (filter (\<lambda>k. k \<in> set ids) (map sale_pk xs))"
    by (metis m length_map)
  also have "\<dots> = card (set ids)"
    using distinct_card [OF d] s by simp
  also have "\<dots> = length ids"
    using assms(1) by (simp add: distinct_card)
  finally show ?thesis .
qed

text \<open>
  C4, as the code has it. For a non-empty list of keys the bulk deletion removes exactly the
  stored sales whose key is in the list and reports, in its notice, the number of sales it
  found under those keys; that number is the length k of the list when the keys are
  distinct and each is the key of a stored sale. For the empty list it only adds the
  informational notice.
\<close>

theorem bulk_delete_reports_removed:
  assumes "SaleBulkDeleteView_post (Authenticated u) ids st = (r, st')"
  shows "r = Redirect ''accounts:sale_list''
     \<and> (ids = [] \<longrightarrow> st' = add_message Info msg_none_selected st)
     \<and> (ids \<noteq> [] \<longrightarrow>
          sales st' = filter (\<lambda>s. sale_pk s \<notin> set ids) (sales st)
        \<and> messages st' = messages st @ [\<lparr>msg_level = Success, msg_text =
            msg_bulk_deleted (length (filter (\<lambda>s. sale_pk s \<in> set ids) (sales st)))\<rparr>])
     \<and> (distinct ids \<and> set ids \<subseteq> sale_pk ` set (sales st) \<and> distinct (map sale_pk (sales st))
          \<longrightarrow> length (filter (\<lambda>s. sale_pk s \<in> set ids) (sales st)) = length ids)"
proof -
  have a: "r = fst (SaleBulkDeleteView_post (Authenticated u) ids st)"
    "st' = snd (SaleBulkDeleteView_post (Authenticated u) ids st)"
    using assms by simp_all
  show ?thesis
    unfolding a using bulk_count [of ids "sales st"]
    by (simp add: SaleBulkDeleteView_post_def dispatch_def is_authenticated_def
        SaleBulkDeleteView_handler_def Let_def ActivityLog_create_def add_message_def
        delete_sales_def)
qed

theorem bulk_delete_reports_removed_witness:
  "demo_bulk [8, 7] = (fst (demo_bulk [8, 7]), snd (demo_bulk [8, 7]))
   \<and> distinct [8, 7 :: pk] \<and> set [8, 7] \<subseteq> sale_pk ` set (sales demo_state)
   \<and> distinct (map sale_pk (sales demo_state))
   \<and> fst (demo_bulk [8, 7]) = Redirect ''accounts:sale_list''
   \<and> sales (snd (demo_bulk [8, 7])) = filter (\<lambda>s. sale_pk s \<notin> set [8, 7]) (sales demo_state)
   \<and> length (filter (\<lambda>s. sale_pk s \<in> set [8, 7]) (sales demo_state)) = length [8, 7 :: pk]
   \<and> map msg_text (messages (snd (demo_bulk [8, 7]))) = [msg_bulk_deleted 2]"
proof -
  have h: "[8, 7 :: pk] \<noteq> []" "distinct [8, 7 :: pk]"
    "demo_bulk [8, 7] = (fst (demo_bulk [8, 7]), snd (demo_bulk [8, 7]))"
    by simp_all
  have d: "distinct (map sale_pk (sales demo_state))"
    "map msg_text (messages (snd (demo_bulk [8, 7]))) = [msg_bulk_deleted 2]"
    by code_simp+
  have s: "set [8, 7] \<subseteq> sale_pk ` set (sales demo_state)"
    by (simp add: demo_state_def demo_sale_def)
  show ?thesis
    using h d s bulk_delete_reports_removed [OF h(3) [unfolded demo_bulk_def]]
    unfolding demo_bulk_def [symmetric] by blast
qed

text \<open>
  Against C4 as the spec words it: of the two keys 7 and 99 submitted against the sample
  data, one sale is found and removed, and the notice reports 1, not 2.
\<close>

theorem bulk_delete_count_counterexample:
  "distinct [7, 99 :: pk] \<and> length [7, 99 :: pk] = 2
   \<and> map sale_pk (sales demo_state) = [7, 8]
   \<and> map sale_pk (sales (snd (demo_bulk [7, 99]))) = [8]
   \<and> map msg_text (messages (snd (demo_bulk [7, 99])))
       = [''1 vente(s) supprim'' @ [e_acute] @ ''e(s).'']"
  by code_simp

section \<open>Who may run a view\<close>

lemma admin_bases:
  "AdminRequiredMixin \<in> set (bases v) \<longleftrightarrow>
     v \<notin> {SaleListView, SaleBulkDeleteView, SaleDetailView, SaleDeleteView}"
  by (cases v) simp_all

lemma login_bases: "LoginRequiredMixin \<in> set (bases v)"
  by (cases v) simp_all

lemma dispatch_login_only:
  "AdminRequiredMixin \<notin> set (bases v) \<Longrightarrow>
   dispatch v p handler st = (if is_authenticated p then handler st else (RedirectToLogin, st))"
  using login_bases [of v] by (simp add: dispatch_def handle_no_permission_def)

text \<open>
  C8, as the code has it. A principal fails test_func exactly when it is anonymous or no
  administrator. Every view declared with AdminRequiredMixin, which is every Employee,
  Supplier, Category and Product view, answers such a principal with the redirect to login
  and the access-denied notice, whatever its handler is: the handler does not run and
  nothing but the notice is added to the state. The four Sale views are declared with
  LoginRequiredMixin alone: they send an anonymous principal to the login URL and run
  their handler for every authenticated principal, administrator or not.
\<close>

theorem admin_only_screens:
  "(\<not> test_func p \<longleftrightarrow> p = AnonymousUser \<or> (\<exists>u. p = Authenticated u \<and> \<not> is_admin u))
   \<and> (AdminRequiredMixin \<in> set (bases v) \<longleftrightarrow>
        v \<notin> {SaleListView, SaleBulkDeleteView, SaleDetailView, SaleDeleteView})
   \<and> (AdminRequiredMixin \<in> set (bases v) \<and> \<not> test_func p \<longrightarrow>
        dispatch v p handler st
          = (Redirect ''accounts:login'', add_message Error msg_access_denied st))
   \<and> (\<not> test_func p \<longrightarrow>
        EmployeeDeleteView_post p k st
          = (Redirect ''accounts:login'', add_message Error msg_access_denied st)
      \<and> ProductDeleteView_post p k st
          = (Redirect ''accounts:login'', add_message Error msg_access_denied st))
   \<and> add_message Error msg_access_denied st
        = st\<lparr>messages := messages st @ [\<lparr>msg_level = Error, msg_text = msg_access_denied\<rparr>]\<rparr>
   \<and> (AdminRequiredMixin \<notin> set (bases v) \<longrightarrow>
        dispatch v p handler st
          = (if is_authenticated p then handler st else (RedirectToLogin, st)))"
proof -
  have "\<not> test_func p \<longleftrightarrow> p = AnonymousUser \<or> (\<exists>u. p = Authenticated u \<and> \<not> is_admin u)"
    by (cases p) (simp_all add: test_func_def)
  then show ?thesis
    using dispatch_admin_rejects [of _ p _ st] dispatch_login_only [of v p handler st]
      admin_bases [of v]
    by (simp add: EmployeeDeleteView_post_def ProductDeleteView_post_def add_message_def)
qed

theorem admin_only_screens_witness:
  "AdminRequiredMixin \<in> set (bases SupplierDeleteView)
   \<and> \<not> test_func (Authenticated demo_cashier)
   \<and> dispatch SupplierDeleteView (Authenticated demo_cashier) (\<lambda>st. (Http404, st)) demo_state
       = (Redirect ''accounts:login'', add_message Error msg_access_denied demo_state)
   \<and> ProductDeleteView_post (Authenticated demo_cashier) 2 demo_state
       = (Redirect ''accounts:login'', add_message Error msg_access_denied demo_state)
   \<and> AdminRequiredMixin \<notin> set (bases SaleDeleteView)
   \<and> dispatch SaleDeleteView AnonymousUser (SaleDeleteView_delete AnonymousUser 7) demo_state
       = (if is_authenticated AnonymousUser then SaleDeleteView_delete AnonymousUser 7 demo_state
          else (RedirectToLogin, demo_state))"
proof -
  have h: "AdminRequiredMixin \<in> set (bases SupplierDeleteView)"
    "\<not> test_func (Authenticated demo_cashier)" "AdminRequiredMixin \<notin> set (bases SaleDeleteView)"
    by code_simp+
  show ?thesis
    using h
      admin_only_screens [of "Authenticated demo_cashier" SupplierDeleteView "\<lambda>st. (Http404, st)" demo_state 2]
      admin_only_screens [of AnonymousUser SaleDeleteView "SaleDeleteView_delete AnonymousUser 7" demo_state 2]
    by blast
qed

text \<open>
  Against C8 as the spec words it: the cashier of the sample data, who is no administrator,
  deletes sale 7 through SaleDeleteView and is answered with the redirect to the sale list.
\<close>

theorem sale_delete_by_cashier_counterexample:
  "\<not> test_func (Authenticated demo_cashier)
   \<and> map sale_pk (sales demo_state) = [7, 8]
   \<and> fst (SaleDeleteView_post (Authenticated demo_cashier) 7 demo_state)
       = Redirect ''accounts:sale_list''
   \<and> map sale_pk (sales (snd (SaleDeleteView_post (Authenticated demo_cashier) 7 demo_state)))
       = [8]"
  by code_simp

section \<open>A form that fails validation\<close>




section \<open>The employee screens leave the caller out\<close>

text \<open>
  C5. For an authenticated administrator c, the querysets of the employee list, detail,
  update and delete views are built without c's own row, and asking for the detail, an
  update or a deletion of c's own key is answered with 404 and leaves the state as it was.
\<close>

theorem employee_views_exclude_caller:
  assumes "is_admin c"
  shows "Employee_get_queryset (Authenticated c) st
         = filter (\<lambda>u. user_pk u \<noteq> user_pk c) (users st)
     \<and> set (EmployeeListView_get_queryset (Authenticated c) form st)
         \<subseteq> {u \<in> set (users st). user_pk u \<noteq> user_pk c}
     \<and> EmployeeDetailView_get (Authenticated c) (user_pk c) st = (Http404, st)
     \<and> EmployeeUpdateView_post (Authenticated c) (user_pk c) uform st = (Http404, st)
     \<and> EmployeeDeleteView_post (Authenticated c) (user_pk c) st = (Http404, st)"
proof -
  have t: "test_func (Authenticated c)"
    using assms by (simp add: test_func_def)
  have own: "get_object user_pk (Employee_get_queryset (Authenticated c) st) (user_pk c) = None"
    by (simp add: get_object_None Employee_get_queryset_def exclude_self_def)
  have "set (EmployeeListView_get_queryset (Authenticated c) form st)
      \<subseteq> set (exclude_self (Authenticated c) (users st))"
    by (cases form) (auto simp: EmployeeListView_get_queryset_def Let_def
        order_by_date_joined_desc_def split: option.splits)
  then have l: "set (EmployeeListView_get_queryset (Authenticated c) form st)
      \<subseteq> {u \<in> set (users st). user_pk u \<noteq> user_pk c}"
    by (auto simp: exclude_self_def)
  have q: "Employee_get_queryset (Authenticated c) st
      = filter (\<lambda>u. user_pk u \<noteq> user_pk c) (users st)"
    by (simp add: Employee_get_queryset_def exclude_self_def)
  have d: "EmployeeDetailView_get (Authenticated c) (user_pk c) st = (Http404, st)"
    "EmployeeUpdateView_post (Authenticated c) (user_pk c) uform st = (Http404, st)"
    "EmployeeDeleteView_post (Authenticated c) (user_pk c) st = (Http404, st)"
    by (simp_all add: EmployeeDetailView_get_def EmployeeUpdateView_post_def
        EmployeeDeleteView_post_def EmployeeDeleteView_delete_def dispatch_admin_passes [OF t]
        own)
  show ?thesis
    using l q d by blast
qed

theorem employee_views_exclude_caller_witness:
  "is_admin demo_admin
   \<and> map user_pk (Employee_get_queryset (Authenticated demo_admin) demo_state) = [2]
   \<and> set (EmployeeListView_get_queryset (Authenticated demo_admin) Blank demo_state)
       \<subseteq> {u \<in> set (users demo_state). user_pk u \<noteq> user_pk demo_admin}
   \<and> EmployeeDetailView_get (Authenticated demo_admin) (user_pk demo_admin) demo_state
       = (Http404, demo_state)
   \<and> EmployeeDeleteView_post (Authenticated demo_admin) (user_pk demo_admin) demo_state
       = (Http404, demo_state)
   \<and> fst (EmployeeDetailView_get (Authenticated demo_admin) 2 demo_state)
       = RenderEmployeeDetail demo_cashier"
proof -
  have h: "is_admin demo_admin"
    by code_simp
  have e: "map user_pk (Employee_get_queryset (Authenticated demo_admin) demo_state) = [2]"
    "fst (EmployeeDetailView_get (Authenticated demo_admin) 2 demo_state)
       = RenderEmployeeDetail demo_cashier"
    by code_simp+
  show ?thesis
    using h e employee_views_exclude_caller [OF h, of demo_state Blank Blank]
    by blast
qed

section \<open>Composition of the employee search\<close>

lemma startswith_iff: "startswith xs t \<longleftrightarrow> (\<exists>b. xs = t @ b)"
  by (induction xs t rule: startswith.induct) auto

lemma contains_iff: "contains xs t \<longleftrightarrow> (\<exists>a b. xs = a @ t @ b)"
proof (induction xs)
  case Nil
  then show ?case by auto
next
  case (Cons c cs)
  show ?case
  proof
    assume "contains (c # cs) t"
    then consider "startswith (c # cs) t" | "contains cs t" by auto
    then show "\<exists>a b. c # cs = a @ t @ b"
    proof cases
      case 1
      then obtain b where "c # cs = t @ b" by (auto simp: startswith_iff)
      then have "c # cs = [] @ t @ b" by simp
      then show ?thesis by blast
    next
      case 2
      with Cons obtain a b where "cs = a @ t @ b" by blast
      then have "c # cs = (c # a) @ t @ b" by simp
      then show ?thesis by blast
    qed
  next
    assume "\<exists>a b. c # cs = a @ t @ b"
    then obtain a b where ab: "c # cs = a @ t @ b" by blast
    show "contains (c # cs) t"
    proof (cases a)
      case Nil
      with ab have "startswith (c # cs) t" by (auto simp: startswith_iff)
      then show ?thesis by simp
    next
      case (Cons x a')
      with ab have "cs = a' @ t @ b" by simp
      with Cons.IH have "contains cs t" by blast
      then show ?thesis by simp
    qed
  qed
qed

lemma icontains_iff: "icontains field term \<longleftrightarrow> substring_ignoring_case term field"
  by (simp add: icontains_def contains_iff substring_ignoring_case_def)

lemma queryset_valid:
  "EmployeeListView_get_queryset p (Valid c) st
     = filter (employee_match c) (order_by_date_joined_desc (exclude_self p (users st)))"
  by (auto simp: EmployeeListView_get_queryset_def Let_def employee_match_def icontains_iff
      split: option.splits intro!: filter_cong)

lemma employee_match_split:
  "employee_match c u \<longleftrightarrow>
     employee_match (c\<lparr>es_role := None, es_status := []\<rparr>) u
     \<and> employee_match (c\<lparr>es_search := [], es_status := []\<rparr>) u
     \<and> employee_match (c\<lparr>es_search := [], es_role := None\<rparr>) u"
  by (simp add: employee_match_def)

text \<open>
  C6. Over the users the caller may see (all but the caller, newest first), a valid search
  returns the rows that pass the three conditions together; it selects exactly the
  intersection of what the term, the role and the status select when each is given alone;
  and a term alone selects exactly the users whose first name, last name or email has the
  term as a substring when letter case is ignored.
\<close>

theorem employee_search_composition:
  "EmployeeListView_get_queryset p (Valid c) st
     = filter (employee_match c) (order_by_date_joined_desc (exclude_self p (users st)))
   \<and> set (EmployeeListView_get_queryset p (Valid c) st)
       = set (EmployeeListView_get_queryset p (Valid (c\<lparr>es_role := None, es_status := []\<rparr>)) st)
         \<inter> set (EmployeeListView_get_queryset p (Valid (c\<lparr>es_search := [], es_status := []\<rparr>)) st)
         \<inter> set (EmployeeListView_get_queryset p (Valid (c\<lparr>es_search := [], es_role := None\<rparr>)) st)
   \<and> (es_search c \<noteq> [] \<longrightarrow>
        set (EmployeeListView_get_queryset p (Valid (c\<lparr>es_role := None, es_status := []\<rparr>)) st)
          = {u \<in> set (exclude_self p (users st)).
               substring_ignoring_case (es_search c) (first_name u)
               \<or> substring_ignoring_case (es_search c) (last_name u)
               \<or> substring_ignoring_case (es_search c) (email u)})"
proof (intro conjI impI)
  show "EmployeeListView_get_queryset p (Valid c) st
     = filter (employee_match c) (order_by_date_joined_desc (exclude_self p (users st)))"
    by (rule queryset_valid)
  show "set (EmployeeListView_get_queryset p (Valid c) st)
       = set (EmployeeListView_get_queryset p (Valid (c\<lparr>es_role := None, es_status := []\<rparr>)) st)
         \<inter> set (EmployeeListView_get_queryset p (Valid (c\<lparr>es_search := [], es_status := []\<rparr>)) st)
         \<inter> set (EmployeeListView_get_queryset p (Valid (c\<lparr>es_search := [], es_role := None\<rparr>)) st)"
    unfolding queryset_valid set_filter using employee_match_split [of c] by blast
  assume "es_search c \<noteq> []"
  then have "employee_match (c\<lparr>es_role := None, es_status := []\<rparr>) u \<longleftrightarrow>
      substring_ignoring_case (es_search c) (first_name u)
      \<or> substring_ignoring_case (es_search c) (last_name u)
      \<or> substring_ignoring_case (es_search c) (email u)" for u
    by (simp add: employee_match_def)
  then show "set (EmployeeListView_get_queryset p (Valid (c\<lparr>es_role := None, es_status := []\<rparr>)) st)
      = {u \<in> set (exclude_self p (users st)).
           substring_ignoring_case (es_search c) (first_name u)
           \<or> substring_ignoring_case (es_search c) (last_name u)
           \<or> substring_ignoring_case (es_search c) (email u)}"
    unfolding queryset_valid by (simp add: order_by_date_joined_desc_def)
qed

theorem employee_search_composition_witness:
  "es_search \<lparr>es_search = ''DUP'', es_role = Some Cashier, es_status = ''active''\<rparr> \<noteq> []
   \<and> map user_pk (EmployeeListView_get_queryset (Authenticated demo_admin)
        (Valid \<lparr>es_search = ''DUP'', es_role = Some Cashier, es_status = ''active''\<rparr>) demo_state)
       = [2]
   \<and> map user_pk (EmployeeListView_get_queryset (Authenticated demo_admin)
        (Valid \<lparr>es_search = ''DUP'', es_role = Some Cashier, es_status = ''inactive''\<rparr>) demo_state)
       = []
   \<and> EmployeeListView_get_queryset (Authenticated demo_admin)
        (Valid \<lparr>es_search = ''DUP'', es_role = Some Cashier, es_status = ''active''\<rparr>) demo_state
       = filter (employee_match \<lparr>es_search = ''DUP'', es_role = Some Cashier, es_status = ''active''\<rparr>)
           (order_by_date_joined_desc (exclude_self (Authenticated demo_admin) (users demo_state)))"
proof -
  have h: "es_search \<lparr>es_search = ''DUP'', es_role = Some Cashier, es_status = ''active''\<rparr> \<noteq> []"
    by simp
  have e: "map user_pk (EmployeeListView_get_queryset (Authenticated demo_admin)
        (Valid \<lparr>es_search = ''DUP'', es_role = Some Cashier, es_status = ''active''\<rparr>) demo_state)
       = [2]"
    "map user_pk (EmployeeListView_get_queryset (Authenticated demo_admin)
        (Valid \<lparr>es_search = ''DUP'', es_role = Some Cashier, es_status = ''inactive''\<rparr>) demo_state)
       = []"
    by code_simp+
  show ?thesis
    using h e employee_search_composition [of "Authenticated demo_admin"
        "\<lparr>es_search = ''DUP'', es_role = Some Cashier, es_status = ''active''\<rparr>" demo_state]
    by blast
qed

section \<open>The JSON projection of a sale\<close>


















section \<open>The revenue shown with the sale list\<close>

lemma paginate_Some:
  assumes "paginate per pg xs = Some page"
  shows "\<exists>n. page = take per (drop (n * per) xs)"
  using assms
  by (auto simp: paginate_def Let_def split: option.splits if_splits)

lemma paginate_first: "0 < per \<Longrightarrow> paginate per PageDefault xs = Some (take per xs)"
  by (cases xs) (simp_all add: paginate_def Let_def num_pages_def div_greater_zero_iff)

text \<open>
  C10. Whenever the sale list is rendered, the total_revenue of its context is the sum of
  total_amount over the sales of the page shown, a slice of at most 7 rows of the filtered
  queryset; the request changes nothing. For an authenticated principal the first page is
  always rendered. In the sample of eight sales the first page sums to 3500 while the
  filtered set sums to 3600.
\<close>

theorem total_revenue_of_page:
  "(SaleListView_get p form pg st = (RenderSaleList page_obj total_revenue, st') \<longrightarrow>
      total_revenue = sum_list (map total_amount page_obj) \<and> length page_obj \<le> 7 \<and> st' = st
      \<and> (\<exists>n. page_obj = take 7 (drop (n * 7) (SaleListView_get_queryset form st))))
   \<and> (is_authenticated p \<longrightarrow>
        SaleListView_get p form PageDefault st
          = (RenderSaleList (take 7 (SaleListView_get_queryset form st))
               (sum_list (map total_amount (take 7 (SaleListView_get_queryset form st)))), st))"
proof (intro conjI impI)
  assume a: "SaleListView_get p form pg st = (RenderSaleList page_obj total_revenue, st')"
  then have auth: "is_authenticated p"
    by (auto simp: SaleListView_get_def dispatch_def handle_no_permission_def split: if_splits)
  with a have pg: "paginate 7 pg (SaleListView_get_queryset form st) = Some page_obj"
    and tr: "total_revenue = sum_list (map total_amount page_obj)" and st: "st' = st"
    by (auto simp: SaleListView_get_def dispatch_def split: option.splits)
  from paginate_Some [OF pg] obtain n where n: "page_obj = take 7 (drop (n * 7) (SaleListView_get_queryset form st))"
    by blast
  show "total_revenue = sum_list (map total_amount page_obj)" by (rule tr)
  show "st' = st" by (rule st)
  show "length page_obj \<le> 7" by (simp add: n)
  show "\<exists>n. page_obj = take 7 (drop (n * 7) (SaleListView_get_queryset form st))"
    using n by blast
next
  assume "is_authenticated p"
  then show "SaleListView_get p form PageDefault st
          = (RenderSaleList (take 7 (SaleListView_get_queryset form st))
               (sum_list (map total_amount (take 7 (SaleListView_get_queryset form st)))), st)"
    by (simp add: SaleListView_get_def dispatch_def paginate_first)
qed

theorem total_revenue_of_page_witness:
  "is_authenticated (Authenticated demo_cashier)
   \<and> SaleListView_get (Authenticated demo_cashier) Blank PageDefault demo_many_sales
       = (RenderSaleList (take 7 (SaleListView_get_queryset Blank demo_many_sales))
            (sum_list (map total_amount (take 7 (SaleListView_get_queryset Blank demo_many_sales)))),
          demo_many_sales)
   \<and> length (take 7 (SaleListView_get_queryset Blank demo_many_sales)) \<le> 7
   \<and> map sale_pk (SaleListView_get_queryset Blank demo_many_sales) = [8, 7, 6, 5, 4, 3, 2, 1]
   \<and> sum_list (map total_amount (take 7 (SaleListView_get_queryset Blank demo_many_sales))) = 3500
   \<and> sum_list (map total_amount (SaleListView_get_queryset Blank demo_many_sales)) = 3600"
proof -
  have h: "is_authenticated (Authenticated demo_cashier)"
    by (simp add: is_authenticated_def)
  have q: "map sale_pk (SaleListView_get_queryset Blank demo_many_sales) = [8, 7, 6, 5, 4, 3, 2, 1]"
    and t: "map total_amount (SaleListView_get_queryset Blank demo_many_sales)
             = [800, 700, 600, 500, 400, 300, 200, 100]"
    by (simp_all add: SaleListView_get_queryset_def order_by_date_desc_def demo_many_sales_def
        demo_sale_def demo_date_def datetime_ord_def date_ord_def)
  have s: "sum_list (map total_amount (take 7 (SaleListView_get_queryset Blank demo_many_sales))) = 3500"
    "sum_list (map total_amount (SaleListView_get_queryset Blank demo_many_sales)) = 3600"
    by (simp_all add: take_map [symmetric] t)
  show ?thesis
    using h q s total_revenue_of_page [of "Authenticated demo_cashier" Blank PageDefault
        demo_many_sales "take 7 (SaleListView_get_queryset Blank demo_many_sales)"
        "sum_list (map total_amount (take 7 (SaleListView_get_queryset Blank demo_many_sales)))"
        demo_many_sales]
    by blast
qed

end
